theory Spec2Isabelle
  imports Complex_Main "HOL-Library.Word"
begin

section \<open>Data model: numpy arrays, PIL images, masks\<close>

text \<open>
  The module \<^verbatim>\<open>components/magic_eraser.py\<close> works on PIL images and on the numpy
  arrays made from them. A sample is an unsigned byte (\<^verbatim>\<open>dtype=np.uint8\<close>), so
  arithmetic on samples wraps around modulo 256, as arithmetic on \<open>8 word\<close> does.
\<close>

type_synonym u8 = "8 word"

text \<open>
  A numpy array of two dimensions. numpy keeps the shape beside the buffer (an array of
  zero rows still has a number of columns), so the record does too; \<open>cells\<close> holds the
  rows. An image array of shape \<open>(h, w, bands)\<close> is an array of shape \<open>(h, w)\<close> whose
  cell is the list of the pixel's band samples.
\<close>

record 'a array2 =
  nrows :: nat
  ncols :: nat
  cells :: "'a list list"

definition wf_array :: "'a array2 \<Rightarrow> bool" where
  "wf_array a =
     (length (cells a) = nrows a \<and> list_all (\<lambda>r. length r = ncols a) (cells a))"

text \<open>
  The pixel formats of the data model: single-channel luminance, RGB and RGBA.
\<close>

datatype mode = L | RGB | RGBA

fun bands :: "mode \<Rightarrow> nat" where
  "bands L = 1"
| "bands RGB = 3"
| "bands RGBA = 4"

text \<open>
  A PIL image: its mode and its pixels. \<^verbatim>\<open>np.array(image)\<close> is \<open>arr\<close> and
  \<^verbatim>\<open>Image.fromarray(a, m)\<close> is the image of mode \<open>m\<close> over \<open>a\<close>; \<^verbatim>\<open>image.size\<close> is
  \<open>(ncols, nrows)\<close>.
\<close>

record image =
  mode :: mode
  arr :: "u8 list array2"

definition wf_image :: "image \<Rightarrow> bool" where
  "wf_image im =
     (wf_array (arr im) \<and>
      list_all (list_all (\<lambda>p. length p = bands (mode im))) (cells (arr im)))"

text \<open>
  A selection mask is an image of mode \<open>L\<close>: one byte per pixel. \<^verbatim>\<open>np.array(mask)\<close>
  and \<^verbatim>\<open>Image.fromarray(a, 'L')\<close> pass between the PIL image and its array without
  touching a sample, and \<^verbatim>\<open>mask.convert('L')\<close> is a copy of the mask, so a mask is
  modelled by its array.
\<close>

type_synonym mask = "u8 array2"

datatype py_error = IndexError | ValueError | ZeroDivisionError | Cv2Error

subsection \<open>numpy helpers\<close>

text \<open>\<^verbatim>\<open>np.zeros((h, w))\<close>, \<^verbatim>\<open>Image.new('L', (w, h), v)\<close>: a constant array.\<close>

definition full :: "nat \<Rightarrow> nat \<Rightarrow> 'a \<Rightarrow> 'a array2" where
  "full h w v = \<lparr>nrows = h, ncols = w, cells = replicate h (replicate w v)\<rparr>"

text \<open>An elementwise operation on one array keeps its shape.\<close>

definition map_array :: "('a \<Rightarrow> 'b) \<Rightarrow> 'a array2 \<Rightarrow> 'b array2" where
  "map_array f a = \<lparr>nrows = nrows a, ncols = ncols a, cells = map (map f) (cells a)\<rparr>"

text \<open>
  Broadcasting of one dimension: equal lengths agree, a length of 1 is stretched to the
  other, anything else is numpy's \<^verbatim>\<open>ValueError\<close> (operands could not be broadcast
  together).
\<close>

definition bdim :: "nat \<Rightarrow> nat \<Rightarrow> nat option" where
  "bdim a b = (if a = b then Some a else if a = 1 then Some b else if b = 1 then Some a else None)"

definition stretch :: "nat \<Rightarrow> 'a list \<Rightarrow> 'a list" where
  "stretch n xs = (if length xs = n then xs else replicate n (hd xs))"

definition broadcast_cells :: "nat \<Rightarrow> nat \<Rightarrow> 'a array2 \<Rightarrow> 'a list list" where
  "broadcast_cells h w a = stretch h (map (stretch w) (cells a))"

text \<open>An elementwise operation on two arrays, after broadcasting them to a common shape.\<close>

definition zip_array :: "('a \<Rightarrow> 'b \<Rightarrow> 'c) \<Rightarrow> 'a array2 \<Rightarrow> 'b array2 \<Rightarrow> py_error + 'c array2" where
  "zip_array f a b =
     (case (bdim (nrows a) (nrows b), bdim (ncols a) (ncols b)) of
        (Some h, Some w) \<Rightarrow>
          Inr \<lparr>nrows = h, ncols = w,
               cells = map2 (map2 f) (broadcast_cells h w a) (broadcast_cells h w b)\<rparr>
      | _ \<Rightarrow> Inl ValueError)"

section \<open>AdvancedSelectionTools: operations on masks\<close>

text \<open>
  \<^verbatim>\<open>invert_selection\<close>: \<^verbatim>\<open>inverted = 255 - mask_array\<close>, on bytes.
\<close>

definition invert_selection :: "mask \<Rightarrow> mask" where
  "invert_selection msk = map_array (\<lambda>v. 255 - v) msk"

text \<open>
  \<^verbatim>\<open>combine_selections\<close>. Both arrays are \<^verbatim>\<open>uint8\<close>, so is every intermediate
  result: \<^verbatim>\<open>array1 - array2\<close> is the difference modulo 256, and \<^verbatim>\<open>np.abs\<close> of an
  unsigned array returns it as it is. An operation that is none of the four names gives
  \<^verbatim>\<open>array1\<close>, and \<^verbatim>\<open>array2\<close> is then not looked at beyond its conversion.
\<close>

definition combine_selections :: "mask \<Rightarrow> mask \<Rightarrow> string \<Rightarrow> py_error + mask" where
  "combine_selections mask1 mask2 operation =
     (let array1 = mask1; array2 = mask2 in
      if operation = ''union'' then zip_array max array1 array2
      else if operation = ''intersection'' then zip_array min array1 array2
      else if operation = ''difference'' then
        zip_array (\<lambda>a b. if a > b then a - b else 0) array1 array2
      else if operation = ''symmetric_difference'' then
        zip_array (\<lambda>a b. a - b) array1 array2
      else Inr array1)"

section \<open>PIL helpers\<close>

text \<open>
  \<^verbatim>\<open>image.convert('RGB')\<close> and \<^verbatim>\<open>image.convert('RGBA')\<close> between the three modes:
  a luminance sample is copied to the three colour bands, an alpha band is dropped, a
  missing alpha band is filled with 255 (opaque).
\<close>

fun to_rgb :: "mode \<Rightarrow> u8 list \<Rightarrow> u8 list" where
  "to_rgb L p = replicate 3 (hd p)"
| "to_rgb RGB p = p"
| "to_rgb RGBA p = take 3 p"

fun to_rgba :: "mode \<Rightarrow> u8 list \<Rightarrow> u8 list" where
  "to_rgba L p = replicate 3 (hd p) @ [255]"
| "to_rgba RGB p = p @ [255]"
| "to_rgba RGBA p = p"

definition convert_RGB :: "image \<Rightarrow> image" where
  "convert_RGB im = \<lparr>mode = RGB, arr = map_array (to_rgb (mode im)) (arr im)\<rparr>"

definition convert_RGBA :: "image \<Rightarrow> image" where
  "convert_RGBA im = \<lparr>mode = RGBA, arr = map_array (to_rgba (mode im)) (arr im)\<rparr>"

text \<open>
  \<^verbatim>\<open>image.crop(box)\<close> with \<open>box = (left, upper, right, lower)\<close>: the region has
  \<open>right - left\<close> columns and \<open>lower - upper\<close> rows; a pixel of the box that lies
  outside the image is zero; a box whose right is less than its left, or lower less
  than upper, is a \<^verbatim>\<open>ValueError\<close>.
\<close>

definition crop :: "image \<Rightarrow> int \<times> int \<times> int \<times> int \<Rightarrow> py_error + image" where
  "crop im box =
     (case box of (left, upper, right, lower) \<Rightarrow>
        if right < left \<or> lower < upper then Inl ValueError
        else Inr \<lparr>mode = mode im,
                  arr = \<lparr>nrows = nat (lower - upper), ncols = nat (right - left),
                         cells = map (\<lambda>y. map (\<lambda>x.
                                   if 0 \<le> x \<and> x < int (ncols (arr im)) \<and>
                                      0 \<le> y \<and> y < int (nrows (arr im))
                                   then cells (arr im) ! nat y ! nat x
                                   else replicate (bands (mode im)) 0)
                                 [left..right - 1]) [upper..lower - 1]\<rparr>\<rparr>)"

text \<open>
  \<^verbatim>\<open>image.resize(size, Image.Resampling.LANCZOS)\<close>: an image of exactly the size
  asked for, in the mode of the source; a size that is not positive is a
  \<^verbatim>\<open>ValueError\<close>. The resampled samples come from Pillow's Lanczos filter, which
  computes in floating point: they are the parameter \<open>lanczos\<close>.
\<close>

definition resize :: "(image \<Rightarrow> int \<times> int \<Rightarrow> u8 list list list) \<Rightarrow> image \<Rightarrow> int \<times> int \<Rightarrow> py_error + image" where
  "resize lanczos im target =
     (case target of (w, h) \<Rightarrow>
        if w < 1 \<or> h < 1 then Inl ValueError
        else Inr \<lparr>mode = mode im,
                  arr = \<lparr>nrows = nat h, ncols = nat w, cells = lanczos im target\<rparr>\<rparr>)"

section \<open>MagicEraser.erase_selection\<close>

text \<open>
  \<^verbatim>\<open>erase_mode\<close> is a string or a tuple of colour samples.
\<close>

datatype erase_mode = Str string | Tup "u8 list"

text \<open>
  \<^verbatim>\<open>img_array[:, :, k] = v\<close>: band \<open>k\<close> of every pixel is overwritten; numpy broadcasts
  \<open>v\<close> to the shape of the image array or raises \<^verbatim>\<open>ValueError\<close>.
\<close>

definition set_band :: "nat \<Rightarrow> u8 array2 \<Rightarrow> u8 list array2 \<Rightarrow> py_error + u8 list array2" where
  "set_band k v a =
     (if (nrows v = nrows a \<or> nrows v = 1) \<and> (ncols v = ncols a \<or> ncols v = 1)
      then Inr (a\<lparr>cells := map2 (map2 (\<lambda>p x. p[k := x])) (cells a)
                               (broadcast_cells (nrows a) (ncols a) v)\<rparr>)
      else Inl ValueError)"

text \<open>
  \<^verbatim>\<open>img_array[sel] = color\<close> with a boolean array \<open>sel\<close>: the pixels where \<open>sel\<close> holds
  become \<open>color\<close>; a boolean index of another shape than the image is an
  \<^verbatim>\<open>IndexError\<close>.
\<close>

definition set_where :: "bool array2 \<Rightarrow> 'a \<Rightarrow> 'a array2 \<Rightarrow> py_error + 'a array2" where
  "set_where sel color a =
     (if nrows sel = nrows a \<and> ncols sel = ncols a
      then Inr (a\<lparr>cells := map2 (map2 (\<lambda>s p. if s then color else p)) (cells sel) (cells a)\<rparr>)
      else Inl IndexError)"

definition erase_selection :: "image \<Rightarrow> mask \<Rightarrow> erase_mode \<Rightarrow> py_error + image" where
  "erase_selection img0 msk erase_mode =
     (let img = (if mode img0 \<noteq> RGBA then convert_RGBA img0 else img0);
          img_array = arr img;
          mask_array = msk;
          result =
            (if erase_mode = Str ''transparent'' then
               (case zip_array (\<lambda>m a. if m > 128 then 0 else a)
                       mask_array (map_array (\<lambda>p. p ! 3) img_array) of
                  Inl e \<Rightarrow> Inl e
                | Inr alpha \<Rightarrow> set_band 3 alpha img_array)
             else if erase_mode = Str ''white'' then
               set_where (map_array (\<lambda>m. m > 128) mask_array) [255, 255, 255, 255] img_array
             else if erase_mode = Str ''black'' then
               set_where (map_array (\<lambda>m. m > 128) mask_array) [0, 0, 0, 255] img_array
             else
               (case erase_mode of
                  Tup color \<Rightarrow>
                    if length color = 3 \<or> length color = 4 then
                      set_where (map_array (\<lambda>m. m > 128) mask_array)
                        (if length color = 3 then color @ [255] else color) img_array
                    else Inr img_array
                | Str _ \<Rightarrow> Inr img_array))
      in case result of
           Inl e \<Rightarrow> Inl e
         | Inr a \<Rightarrow> Inr \<lparr>mode = RGBA, arr = a\<rparr>)"

section \<open>SmartCrop\<close>

text \<open>
  \<^verbatim>\<open>auto_crop\<close> dispatches on the name of the composition rule. The three crops it
  dispatches to use OpenCV's edge detector and floating-point factors (1.618, 0.8);
  they are parameters here. Any other name returns the image itself.
\<close>

definition auto_crop ::
  "(image \<Rightarrow> py_error + image) \<Rightarrow> (image \<Rightarrow> py_error + image) \<Rightarrow> (image \<Rightarrow> py_error + image) \<Rightarrow>
   image \<Rightarrow> string \<Rightarrow> py_error + image" where
  "auto_crop rule_of_thirds_crop golden_ratio_crop center_weighted_crop img composition_rule =
     (if composition_rule = ''rule_of_thirds'' then rule_of_thirds_crop img
      else if composition_rule = ''golden_ratio'' then golden_ratio_crop img
      else if composition_rule = ''center_weighted'' then center_weighted_crop img
      else Inr img)"

text \<open>
  \<^verbatim>\<open>int(x)\<close> of a float truncates towards zero.
\<close>

definition py_int :: "real \<Rightarrow> int" where
  "py_int r = (if 0 \<le> r then \<lfloor>r\<rfloor> else \<lceil>r\<rceil>)"

text \<open>
  The crop box of \<^verbatim>\<open>smart_resize_crop\<close> (the variable \<^verbatim>\<open>crop_box\<close>). The two aspect
  ratios are Python floats; the model computes them as exact quotients. A division by a
  zero height, or by a zero target ratio, is Python's \<^verbatim>\<open>ZeroDivisionError\<close>.
\<close>

definition smart_crop_box ::
  "nat \<times> nat \<Rightarrow> int \<times> int \<Rightarrow> (int \<times> int) option \<Rightarrow> py_error + (int \<times> int \<times> int \<times> int)" where
  "smart_crop_box image_size target_sz focus_point0 =
     (case image_size of (current_width, current_height) \<Rightarrow>
      case target_sz of (target_width, target_height) \<Rightarrow>
        if current_height = 0 \<or> target_height = 0 then Inl ZeroDivisionError
        else
          let current_ratio = real current_width / real current_height;
              target_ratio = real_of_int target_width / real_of_int target_height;
              focus_point = (case focus_point0 of
                               None \<Rightarrow> (int current_width div 2, int current_height div 2)
                             | Some p \<Rightarrow> p)
          in if current_ratio > target_ratio then
               let new_width = py_int (real current_height * target_ratio);
                   crop_x = max 0 (min (int current_width - new_width)
                                       (fst focus_point - new_width div 2))
               in Inr (crop_x, 0, crop_x + new_width, int current_height)
             else if target_ratio = 0 then Inl ZeroDivisionError
             else
               let new_height = py_int (real current_width / target_ratio);
                   crop_y = max 0 (min (int current_height - new_height)
                                       (snd focus_point - new_height div 2))
               in Inr (0, crop_y, int current_width, crop_y + new_height))"

definition smart_resize_crop ::
  "(image \<Rightarrow> int \<times> int \<Rightarrow> u8 list list list) \<Rightarrow> image \<Rightarrow> int \<times> int \<Rightarrow> (int \<times> int) option \<Rightarrow>
   py_error + image" where
  "smart_resize_crop lanczos img target_sz focus_point =
     (case smart_crop_box (ncols (arr img), nrows (arr img)) target_sz focus_point of
        Inl e \<Rightarrow> Inl e
      | Inr crop_box \<Rightarrow>
          (case crop img crop_box of
             Inl e \<Rightarrow> Inl e
           | Inr cropped \<Rightarrow> resize lanczos cropped target_sz))"

section \<open>MagicEraser.magic_select\<close>

text \<open>
  The fields of a \<^verbatim>\<open>MagicEraser\<close> object (\<^verbatim>\<open>self.tolerance\<close>, ...) and the values
  \<^verbatim>\<open>__init__\<close> gives them.
\<close>

record magic_eraser =
  self_tolerance :: int
  self_contiguous :: bool
  self_sample_all_layers :: bool
  self_anti_alias :: bool
  self_feather_radius :: int

definition MagicEraser :: magic_eraser where
  "MagicEraser =
     \<lparr>self_tolerance = 32, self_contiguous = True, self_sample_all_layers = False,
      self_anti_alias = True, self_feather_radius = 1\<rparr>"

text \<open>
  \<^verbatim>\<open>np.sum((current_color - target_color) ** 2)\<close>. The two colours are \<^verbatim>\<open>uint8\<close>
  arrays: the difference and its square are computed modulo 256; \<^verbatim>\<open>np.sum\<close> adds the
  three squares in a 64-bit accumulator, which cannot overflow.
\<close>

definition sq_dist :: "u8 list \<Rightarrow> u8 list \<Rightarrow> nat" where
  "sq_dist current_color target_color =
     sum_list (map2 (\<lambda>a b. unat ((a - b) ^ 2)) current_color target_color)"

text \<open>
  \<^verbatim>\<open>color_distance = np.sqrt(...)\<close> and the test \<^verbatim>\<open>color_distance <= tolerance\<close>. The
  sum is an integer of at most 765 and the tolerance an integer, so the test on the
  correctly rounded square root is the test \<open>sum \<le> tolerance\<^sup>2\<close> for a tolerance that
  is not negative, and fails for a negative one.
\<close>

definition within_tolerance :: "u8 list \<Rightarrow> u8 list \<Rightarrow> int \<Rightarrow> bool" where
  "within_tolerance current_color target_color tol =
     (0 \<le> tol \<and> int (sq_dist current_color target_color) \<le> tol * tol)"

text \<open>
  The loop of \<^verbatim>\<open>_flood_fill_select\<close>. The stack is a Python list: \<^verbatim>\<open>pop()\<close> takes
  its last element and \<^verbatim>\<open>extend\<close> appends. The boolean array \<^verbatim>\<open>visited\<close> is the set
  of the coordinates it marks.
\<close>

function flood_fill_loop ::
  "u8 list array2 \<Rightarrow> u8 list \<Rightarrow> int \<Rightarrow> (int \<times> int) list \<Rightarrow> (int \<times> int) set \<Rightarrow> mask \<Rightarrow> mask" where
  "flood_fill_loop img_array target_color tol stack visited msk =
     (if stack = [] then msk
      else
        let x = fst (last stack); y = snd (last stack); stack' = butlast stack in
        if x < 0 \<or> x \<ge> int (ncols img_array) \<or> y < 0 \<or> y \<ge> int (nrows img_array) \<or>
           (x, y) \<in> visited
        then flood_fill_loop img_array target_color tol stack' visited msk
        else if within_tolerance (cells img_array ! nat y ! nat x) target_color tol
        then flood_fill_loop img_array target_color tol
               (stack' @ [(x + 1, y), (x - 1, y), (x, y + 1), (x, y - 1)])
               (insert (x, y) visited)
               (msk\<lparr>cells := (cells msk)[nat y := (cells msk ! nat y)[nat x := 255]]\<rparr>)
        else flood_fill_loop img_array target_color tol stack' visited msk)"
  by pat_completeness auto

text \<open>
  Every turn of the loop either marks a pixel of the image that was not marked, or
  leaves the marks alone and shortens the stack.
\<close>

termination flood_fill_loop
  apply (relation "measures [\<lambda>(img_array, target_color, tol, stack, visited, msk).
            card (({0..<int (ncols img_array)} \<times> {0..<int (nrows img_array)}) - visited),
          \<lambda>(img_array, target_color, tol, stack, visited, msk). length stack]")
  subgoal by simp
  subgoal by simp
  subgoal for img_array target_color tol stack visited msk x y stack'
  proof -
    assume inside: "\<not> (x < 0 \<or> int (ncols img_array) \<le> x \<or> y < 0 \<or> int (nrows img_array) \<le> y \<or>
                     (x, y) \<in> visited)"
      and xy: "x = fst (last stack)" "y = snd (last stack)"
    let ?grid = "{0..<int (ncols img_array)} \<times> {0..<int (nrows img_array)}"
    have "(x, y) \<in> ?grid - visited"
      using inside by simp
    moreover have "finite (?grid - visited)"
      by simp
    moreover have "?grid - insert (x, y) visited = (?grid - visited) - {(x, y)}"
      by auto
    ultimately have "card (?grid - insert (x, y) visited) < card (?grid - visited)"
      by (metis card_Diff1_less)
    then show ?thesis
      using xy by simp
  qed
  subgoal by simp
  done

definition flood_fill_select :: "u8 list array2 \<Rightarrow> int \<times> int \<Rightarrow> u8 list \<Rightarrow> int \<Rightarrow> mask" where
  "flood_fill_select img_array start_point target_color tol =
     flood_fill_loop img_array target_color tol [start_point] {}
       (full (nrows img_array) (ncols img_array) 0)"

text \<open>
  \<^verbatim>\<open>_global_color_select\<close>: the same distance, computed for every pixel at once.
\<close>

definition global_color_select :: "u8 list array2 \<Rightarrow> u8 list \<Rightarrow> int \<Rightarrow> mask" where
  "global_color_select img_array target_color tol =
     map_array (\<lambda>p. if within_tolerance p target_color tol then 255 else 0) img_array"

text \<open>
  The two smoothing passes call \<^verbatim>\<open>cv2.GaussianBlur(src, ksize, sigmaX)\<close>, which is
  OpenCV's: it is the parameter \<open>GaussianBlur\<close>.
\<close>

definition apply_anti_aliasing :: "(mask \<Rightarrow> int \<times> int \<Rightarrow> real \<Rightarrow> mask) \<Rightarrow> mask \<Rightarrow> mask" where
  "apply_anti_aliasing GaussianBlur msk = GaussianBlur msk (3, 3) (1 / 2)"

definition apply_feathering :: "(mask \<Rightarrow> int \<times> int \<Rightarrow> real \<Rightarrow> mask) \<Rightarrow> mask \<Rightarrow> int \<Rightarrow> mask" where
  "apply_feathering GaussianBlur msk radius =
     (if radius \<le> 0 then msk
      else let kernel_size = radius * 2 + 1
           in GaussianBlur msk (kernel_size, kernel_size) (real_of_int radius / 3))"

text \<open>
  \<^verbatim>\<open>magic_select\<close>. The optional arguments are \<open>None\<close> when the caller leaves them
  out. \<^verbatim>\<open>tolerance or self.tolerance\<close> takes the object's tolerance when the argument
  is \<open>None\<close> and also when it is 0 (Python's \<^verbatim>\<open>or\<close> tests truth, and 0 is false);
  \<^verbatim>\<open>contiguous\<close> is replaced only when it is \<open>None\<close>.
\<close>

definition magic_select ::
  "(mask \<Rightarrow> int \<times> int \<Rightarrow> real \<Rightarrow> mask) \<Rightarrow> magic_eraser \<Rightarrow> image \<Rightarrow> int \<times> int \<Rightarrow>
   int option \<Rightarrow> bool option \<Rightarrow> mask" where
  "magic_select GaussianBlur self img point tolerance0 contiguous0 =
     (let tolerance = (case tolerance0 of
                         None \<Rightarrow> self_tolerance self
                       | Some t \<Rightarrow> if t = 0 then self_tolerance self else t);
          contiguous = (case contiguous0 of None \<Rightarrow> self_contiguous self | Some c \<Rightarrow> c);
          img_array = arr (convert_RGB img);
          height = nrows img_array;
          width = ncols img_array
      in if fst point \<ge> int width \<or> snd point \<ge> int height \<or> fst point < 0 \<or> snd point < 0
         then full (nrows (arr img)) (ncols (arr img)) 0
         else
           let target_color = cells img_array ! nat (snd point) ! nat (fst point);
               msk1 = (if contiguous
                       then flood_fill_select img_array point target_color tolerance
                       else global_color_select img_array target_color tolerance);
               msk2 = (if self_anti_alias self then apply_anti_aliasing GaussianBlur msk1
                       else msk1);
               msk3 = (if self_feather_radius self > 0
                       then apply_feathering GaussianBlur msk2 (self_feather_radius self)
                       else msk2)
           in msk3)"

section \<open>ContentAwareFill\<close>

text \<open>
  Python indexing of a dimension of length \<open>n\<close>: a negative index counts from the end,
  an index outside \<open>-n \<dots> n - 1\<close> is an \<^verbatim>\<open>IndexError\<close> (\<open>None\<close> here).
\<close>

definition py_index :: "nat \<Rightarrow> int \<Rightarrow> nat option" where
  "py_index n i =
     (let j = (if i < 0 then int n + i else i)
      in if 0 \<le> j \<and> j < int n then Some (nat j) else None)"

definition getitem2 :: "'a array2 \<Rightarrow> int \<Rightarrow> int \<Rightarrow> py_error + 'a" where
  "getitem2 a y x =
     (case (py_index (nrows a) y, py_index (ncols a) x) of
        (Some j, Some i) \<Rightarrow> Inr (cells a ! j ! i)
      | _ \<Rightarrow> Inl IndexError)"

definition setitem2 :: "'a array2 \<Rightarrow> int \<Rightarrow> int \<Rightarrow> 'a \<Rightarrow> py_error + 'a array2" where
  "setitem2 a y x v =
     (case (py_index (nrows a) y, py_index (ncols a) x) of
        (Some j, Some i) \<Rightarrow> Inr (a\<lparr>cells := (cells a)[j := (cells a ! j)[i := v]]\<rparr>)
      | _ \<Rightarrow> Inl IndexError)"

text \<open>
  A slice \<^verbatim>\<open>start:stop\<close> of a dimension of length \<open>n\<close>: each bound is taken from the
  end when it is negative and clamped to \<open>0 \<dots> n\<close>; the result is the first index and
  the number of elements (none when the bounds cross). A slice never raises.
\<close>

definition slice_bounds :: "nat \<Rightarrow> int \<Rightarrow> int \<Rightarrow> nat \<times> nat" where
  "slice_bounds n start stop =
     (let clamp = (\<lambda>i. if i < 0 then max 0 (int n + i) else min (int n) i);
          lo = clamp start;
          hi = clamp stop
      in (nat lo, nat (hi - lo)))"

text \<open>\<^verbatim>\<open>a[y1:y2, x1:x2]\<close>.\<close>

definition slice2 :: "'a array2 \<Rightarrow> int \<Rightarrow> int \<Rightarrow> int \<Rightarrow> int \<Rightarrow> 'a array2" where
  "slice2 a y1 y2 x1 x2 =
     (case slice_bounds (nrows a) y1 y2 of (r0, nr) \<Rightarrow>
      case slice_bounds (ncols a) x1 x2 of (c0, nc) \<Rightarrow>
        \<lparr>nrows = nr, ncols = nc,
         cells = map (\<lambda>r. take nc (drop c0 r)) (take nr (drop r0 (cells a)))\<rparr>)"

text \<open>\<^verbatim>\<open>a.shape[:2]\<close>.\<close>

definition shape :: "'a array2 \<Rightarrow> nat \<times> nat" where
  "shape a = (nrows a, ncols a)"

text \<open>
  \<^verbatim>\<open>a[sel]\<close> with a boolean array \<open>sel\<close> of the shape of \<open>a\<close>: the cells of \<open>a\<close> where
  \<open>sel\<close> holds, row by row.
\<close>

definition select :: "bool array2 \<Rightarrow> 'a array2 \<Rightarrow> 'a list" where
  "select sel a = map snd (filter fst (zip (concat (cells sel)) (concat (cells a))))"

text \<open>A loop whose body may raise: the first error ends it.\<close>

fun fold_err :: "('s \<Rightarrow> 'a \<Rightarrow> py_error + 's) \<Rightarrow> 'a list \<Rightarrow> 's \<Rightarrow> py_error + 's" where
  "fold_err f [] s = Inr s"
| "fold_err f (x # xs) s = (case f s x of Inl e \<Rightarrow> Inl e | Inr s' \<Rightarrow> fold_err f xs s')"

text \<open>
  The body of the two nested loops of \<^verbatim>\<open>_find_best_patch\<close>, at the candidate centre
  \<open>(sy, sx)\<close>. The state is \<open>(best_score, best_patch)\<close>; the score \<open>None\<close> is
  \<^verbatim>\<open>float('inf')\<close>, the patch \<open>None\<close> is Python's \<^verbatim>\<open>None\<close>. Returning the state
  unchanged is \<^verbatim>\<open>continue\<close>. The difference of the samples and its square are
  \<^verbatim>\<open>uint8\<close>, as in \<open>sq_dist\<close>.
\<close>

definition patch_step ::
  "u8 list array2 \<Rightarrow> bool array2 \<Rightarrow> u8 list array2 \<Rightarrow> bool array2 \<Rightarrow> int \<Rightarrow>
   nat option \<times> u8 list array2 option \<Rightarrow> int \<times> int \<Rightarrow>
   py_error + (nat option \<times> u8 list array2 option)" where
  "patch_step img msk target_patch target_mask half_size st pos =
     (case pos of (sy, sx) \<Rightarrow>
      (case getitem2 msk sy sx of
        Inl e \<Rightarrow> Inl e
      | Inr masked \<Rightarrow>
          if masked then Inr st
          else
            let candidate = slice2 img (sy - half_size) (sy + half_size + 1)
                                       (sx - half_size) (sx + half_size + 1)
            in if shape candidate \<noteq> shape target_patch then Inr st
               else
                 let valid_pixels = map_array Not target_mask
                 in if list_ex (list_ex id) (cells valid_pixels) then
                      if shape valid_pixels \<noteq> shape candidate then Inl IndexError
                      else
                        let diff = sum_list (map2 sq_dist (select valid_pixels candidate)
                                                          (select valid_pixels target_patch))
                        in if (case fst st of None \<Rightarrow> True | Some best_score \<Rightarrow> diff < best_score)
                           then Inr (Some diff, Some candidate)
                           else Inr st
                    else Inr st))"

text \<open>
  \<^verbatim>\<open>_find_best_patch\<close>. \<^verbatim>\<open>range(half_size, height - half_size)\<close> is the list of the
  integers from \<open>half_size\<close> to \<open>height - half_size - 1\<close>.
\<close>

definition find_best_patch ::
  "u8 list array2 \<Rightarrow> bool array2 \<Rightarrow> int \<times> int \<Rightarrow> int \<Rightarrow> py_error + u8 list array2 option" where
  "find_best_patch img msk target_pos patch_size =
     (case target_pos of (x, y) \<Rightarrow>
        let height = int (nrows img);
            width = int (ncols img);
            half_size = patch_size div 2;
            y1 = max 0 (y - half_size);
            y2 = min height (y + half_size + 1);
            x1 = max 0 (x - half_size);
            x2 = min width (x + half_size + 1);
            target_patch = slice2 img y1 y2 x1 x2;
            target_mask = slice2 msk y1 y2 x1 x2
        in (case fold_err (patch_step img msk target_patch target_mask half_size)
                  (concat (map (\<lambda>sy. map (\<lambda>sx. (sy, sx)) [half_size..width - half_size - 1])
                               [half_size..height - half_size - 1]))
                  (None, None) of
             Inl e \<Rightarrow> Inl e
           | Inr (best_score, best_patch) \<Rightarrow> Inr best_patch))"

text \<open>
  \<^verbatim>\<open>np.where(mask_array)\<close> zipped: the coordinates \<open>(y, x)\<close> of the cells that hold,
  row by row.
\<close>

definition where_true :: "bool array2 \<Rightarrow> (int \<times> int) list" where
  "where_true a =
     concat (map (\<lambda>y. map (\<lambda>x. (int y, int x))
                         (filter (\<lambda>x. cells a ! y ! x) [0..<ncols a])) [0..<nrows a])"

text \<open>
  The body of the loop of \<^verbatim>\<open>patch_match_fill\<close> over the pixels to fill; the state is
  the array \<^verbatim>\<open>result\<close>.
\<close>

definition fill_step ::
  "u8 list array2 \<Rightarrow> bool array2 \<Rightarrow> int \<Rightarrow> u8 list array2 \<Rightarrow> int \<times> int \<Rightarrow>
   py_error + u8 list array2" where
  "fill_step img_array mask_array patch_size result pos =
     (case pos of (y, x) \<Rightarrow>
      (case find_best_patch img_array mask_array (x, y) patch_size of
        Inl e \<Rightarrow> Inl e
      | Inr None \<Rightarrow> Inr result
      | Inr (Some best_patch) \<Rightarrow>
          (let patch_center = patch_size div 2
           in (case getitem2 best_patch patch_center patch_center of
                 Inl e \<Rightarrow> Inl e
               | Inr v \<Rightarrow> setitem2 result y x v))))"

definition patch_match_fill :: "image \<Rightarrow> mask \<Rightarrow> int \<Rightarrow> py_error + image" where
  "patch_match_fill img msk patch_size =
     (let img_array = arr (convert_RGB img);
          mask_array = map_array (\<lambda>m. m > 128) msk;
          result = img_array;
          fill_pixels = where_true mask_array
      in case fold_err (fill_step img_array mask_array patch_size) fill_pixels result of
           Inl e \<Rightarrow> Inl e
         | Inr result' \<Rightarrow> Inr \<lparr>mode = RGB, arr = result'\<rparr>)"

text \<open>
  \<^verbatim>\<open>fill_selection\<close>. \<^verbatim>\<open>cv2.cvtColor\<close> with \<^verbatim>\<open>COLOR_RGB2BGR\<close> or
  \<^verbatim>\<open>COLOR_BGR2RGB\<close> reverses the three bands of every pixel. \<^verbatim>\<open>cv2.inpaint\<close> is
  OpenCV's: it is the parameter \<open>inpaint\<close>, which may fail with OpenCV's error.
\<close>

datatype inpaint_flag = INPAINT_NS | INPAINT_TELEA

definition fill_selection ::
  "(u8 list array2 \<Rightarrow> mask \<Rightarrow> nat \<Rightarrow> inpaint_flag \<Rightarrow> py_error + u8 list array2) \<Rightarrow>
   image \<Rightarrow> mask \<Rightarrow> string \<Rightarrow> py_error + image" where
  "fill_selection inpaint img msk method =
     (let img_array = arr (convert_RGB img);
          mask_array = msk;
          img_cv = map_array rev img_array;
          result = (if method = ''telea'' then inpaint img_cv mask_array 3 INPAINT_TELEA
                    else if method = ''ns'' then inpaint img_cv mask_array 3 INPAINT_NS
                    else Inr img_cv)
      in case result of
           Inl e \<Rightarrow> Inl e
         | Inr res \<Rightarrow> Inr \<lparr>mode = RGB, arr = map_array rev res\<rparr>)"

section \<open>Properties of the mask operations\<close>

text \<open>
  Claim C9. Inverting a selection twice gives the mask back: for every mask \<open>m\<close>,
  \<open>invert_selection (invert_selection m)\<close> is \<open>m\<close>, sample for sample and with the same
  shape, because \<open>255 - (255 - v) = v\<close> on bytes.
\<close>

theorem invert_selection_involution: "invert_selection (invert_selection m) = m"
proof -
  have "cells (invert_selection (invert_selection m)) = cells m"
    by (simp add: invert_selection_def map_array_def map_idI)
  then show ?thesis
    by (simp add: invert_selection_def map_array_def)
qed

text \<open>
  Claim C2. The claim reads \<^verbatim>\<open>symmetric_difference\<close> as the absolute difference of the
  two samples as integers. The code subtracts bytes, so the difference wraps: for the
  masks \<open>[[0]]\<close> and \<open>[[255]]\<close> it returns \<open>[[1]]\<close>, where the absolute difference is
  255. The sibling operation \<^verbatim>\<open>difference\<close> guards its subtraction with
  \<^verbatim>\<open>array1 > array2\<close>; this one does not.
\<close>

theorem symmetric_difference_wraps:
  "combine_selections \<lparr>nrows = 1, ncols = 1, cells = [[0]]\<rparr>
     \<lparr>nrows = 1, ncols = 1, cells = [[255]]\<rparr> ''symmetric_difference'' =
   Inr \<lparr>nrows = 1, ncols = 1, cells = [[1]]\<rparr>"
  by (simp add: combine_selections_def zip_array_def bdim_def broadcast_cells_def stretch_def)

section \<open>Properties of the selection\<close>

text \<open>
  Claim C7. For a seed point outside the image (\<open>x < 0\<close>, \<open>y < 0\<close>, \<open>x \<ge> W\<close> or
  \<open>y \<ge> H\<close>), \<open>magic_select\<close> returns the all-zero mask of the image's width and
  height, whatever the tolerance, the contiguous flag, the settings of the eraser and
  the blur. The model of \<open>magic_select\<close> has no error result: no statement of the
  function can raise on an image and an integer point.
\<close>

theorem magic_select_out_of_bounds:
  assumes "fst point < 0 \<or> snd point < 0 \<or>
           fst point \<ge> int (ncols (arr img)) \<or> snd point \<ge> int (nrows (arr img))"
  shows "magic_select GaussianBlur self img point tolerance contiguous =
           \<lparr>nrows = nrows (arr img), ncols = ncols (arr img),
            cells = replicate (nrows (arr img)) (replicate (ncols (arr img)) 0)\<rparr>"
  using assms
  by (auto simp add: magic_select_def Let_def convert_RGB_def map_array_def full_def)

theorem magic_select_out_of_bounds_witness:
  "magic_select (\<lambda>m k s. m) MagicEraser
     \<lparr>mode = RGB, arr = \<lparr>nrows = 1, ncols = 2, cells = [[[10, 20, 30], [40, 50, 60]]]\<rparr>\<rparr>
     (2, 0) (Some 5) (Some False) =
   \<lparr>nrows = 1, ncols = 2, cells = [[0, 0]]\<rparr>"
  using magic_select_out_of_bounds [of "(2, 0)"
      "\<lparr>mode = RGB, arr = \<lparr>nrows = 1, ncols = 2, cells = [[[10, 20, 30], [40, 50, 60]]]\<rparr>\<rparr>"
      "\<lambda>m k s. m" MagicEraser "Some 5" "Some False"]
  by (simp add: numeral_2_eq_2)

lemma flood_fill_two_pixels:
  "flood_fill_select \<lparr>nrows = 1, ncols = 2, cells = [[[0, 0, 0], [1, 0, 0]]]\<rparr> (0, 0) [0, 0, 0] 32 =
     \<lparr>nrows = 1, ncols = 2, cells = [[255, 255]]\<rparr>"
  by code_simp

lemma flood_fill_wrapped_square:
  "flood_fill_select \<lparr>nrows = 1, ncols = 2, cells = [[[0, 0, 0], [16, 0, 0]]]\<rparr> (0, 0) [0, 0, 0] 0 =
     \<lparr>nrows = 1, ncols = 2, cells = [[255, 255]]\<rparr>"
  by code_simp

text \<open>
  Claim C1. With \<open>tolerance=0\<close> the claim expects exact colour matching: a pixel of
  another colour next to the seed stays out of the selection. The code replaces a
  tolerance of 0 by the object's tolerance (32 after \<^verbatim>\<open>__init__\<close>), because
  \<^verbatim>\<open>tolerance or self.tolerance\<close> tests truth where the next line, for
  \<^verbatim>\<open>contiguous\<close>, tests \<^verbatim>\<open>is not None\<close>. On the image of the two pixels \<open>(0,0,0)\<close>
  and \<open>(1,0,0)\<close> with the seed on the first, the mask handed to the smoothing passes
  selects both pixels, and with the smoothing switched off it is the mask returned.
  Where the tolerance does reach the flood fill as 0 (the object's own tolerance set to
  0), the square of a byte difference of 16 wraps to 0, and the pixel \<open>(16,0,0)\<close> is
  selected all the same.
\<close>

theorem magic_select_tolerance_zero:
  "magic_select GaussianBlur MagicEraser
     \<lparr>mode = RGB, arr = \<lparr>nrows = 1, ncols = 2, cells = [[[0, 0, 0], [1, 0, 0]]]\<rparr>\<rparr>
     (0, 0) (Some 0) (Some True) =
   apply_feathering GaussianBlur
     (apply_anti_aliasing GaussianBlur \<lparr>nrows = 1, ncols = 2, cells = [[255, 255]]\<rparr>) 1 \<and>
   magic_select GaussianBlur (MagicEraser\<lparr>self_anti_alias := False, self_feather_radius := 0\<rparr>)
     \<lparr>mode = RGB, arr = \<lparr>nrows = 1, ncols = 2, cells = [[[0, 0, 0], [1, 0, 0]]]\<rparr>\<rparr>
     (0, 0) (Some 0) (Some True) =
   \<lparr>nrows = 1, ncols = 2, cells = [[255, 255]]\<rparr> \<and>
   magic_select GaussianBlur
     (MagicEraser\<lparr>self_tolerance := 0, self_anti_alias := False, self_feather_radius := 0\<rparr>)
     \<lparr>mode = RGB, arr = \<lparr>nrows = 1, ncols = 2, cells = [[[0, 0, 0], [16, 0, 0]]]\<rparr>\<rparr>
     (0, 0) (Some 0) (Some True) =
   \<lparr>nrows = 1, ncols = 2, cells = [[255, 255]]\<rparr>"
  using flood_fill_two_pixels flood_fill_wrapped_square
  by (simp add: magic_select_def MagicEraser_def convert_RGB_def map_array_def Let_def)

section \<open>Properties of erasing\<close>

lemma broadcast_cells_same:
  "wf_array a \<Longrightarrow> broadcast_cells (nrows a) (ncols a) a = cells a"
  by (simp add: broadcast_cells_def wf_array_def stretch_def list_all_iff map_idI)

lemma wf_map_array: "wf_array a \<Longrightarrow> wf_array (map_array f a)"
  by (simp add: wf_array_def map_array_def list_all_iff)

lemma zip_array_same:
  assumes "wf_array a" "wf_array b" "nrows a = nrows b" "ncols a = ncols b"
  shows "zip_array f a b =
           Inr \<lparr>nrows = nrows b, ncols = ncols b, cells = map2 (map2 f) (cells a) (cells b)\<rparr>"
  using assms broadcast_cells_same[of a] broadcast_cells_same[of b]
  by (simp add: zip_array_def bdim_def)

lemma wf_rows: "wf_array a \<Longrightarrow> y < nrows a \<Longrightarrow> length (cells a ! y) = ncols a"
  by (simp add: wf_array_def list_all_length)

lemma wf_pixel:
  "wf_image im \<Longrightarrow> y < nrows (arr im) \<Longrightarrow> x < ncols (arr im) \<Longrightarrow>
     length (cells (arr im) ! y ! x) = bands (mode im)"
  by (simp add: wf_image_def wf_array_def list_all_length)

lemma length_to_rgba: "length p = bands m \<Longrightarrow> length (to_rgba m p) = 4"
  by (cases m) simp_all

lemma wf_convert_RGBA: "wf_image img \<Longrightarrow> wf_image (convert_RGBA img)"
  by (simp add: wf_image_def convert_RGBA_def wf_array_def map_array_def list_all_iff length_to_rgba)

lemma promoted_facts:
  assumes "wf_image img"
  defines "P \<equiv> (if mode img \<noteq> RGBA then convert_RGBA img else img)"
  shows "wf_image P" "mode P = RGBA" "nrows (arr P) = nrows (arr img)" "ncols (arr P) = ncols (arr img)"
  using assms wf_convert_RGBA[of img]
  by (auto simp add: convert_RGBA_def map_array_def)

lemma erase_transparent_eq:
  assumes "wf_image img" "wf_array msk" "nrows msk = nrows (arr img)" "ncols msk = ncols (arr img)"
  shows "erase_selection img msk (Str ''transparent'') =
     Inr \<lparr>mode = RGBA,
          arr = \<lparr>nrows = nrows (arr img), ncols = ncols (arr img),
                 cells = map2 (map2 (\<lambda>p x. p[3 := x]))
                           (cells (arr (if mode img \<noteq> RGBA then convert_RGBA img else img)))
                           (map2 (map2 (\<lambda>m a. if m > 128 then 0 else a)) (cells msk)
                              (map (map (\<lambda>p. p ! 3))
                                 (cells (arr (if mode img \<noteq> RGBA then convert_RGBA img else img)))))\<rparr>\<rparr>"
proof -
  define P where "P = (if mode img \<noteq> RGBA then convert_RGBA img else img)"
  have wfP: "wf_array (arr P)" and hP: "nrows (arr P) = nrows (arr img)"
    and wP: "ncols (arr P) = ncols (arr img)"
    using promoted_facts[OF assms(1)] by (simp_all add: P_def wf_image_def)
  let ?alpha = "map_array (\<lambda>p. p ! 3) (arr P)"
  have wfa: "wf_array ?alpha"
    using wfP by (rule wf_map_array)
  have z: "zip_array (\<lambda>m a. if m > 128 then 0 else a) msk ?alpha =
             Inr \<lparr>nrows = nrows ?alpha, ncols = ncols ?alpha,
                  cells = map2 (map2 (\<lambda>m a. if m > 128 then 0 else a)) (cells msk) (cells ?alpha)\<rparr>"
    using assms(2) wfa assms(3,4) hP wP by (intro zip_array_same) (simp_all add: map_array_def)
  let ?v = "\<lparr>nrows = nrows ?alpha, ncols = ncols ?alpha,
             cells = map2 (map2 (\<lambda>m a. if m > 128 then 0 else a)) (cells msk) (cells ?alpha)\<rparr>"
  have wfv: "wf_array ?v"
    using assms(2) wfP assms(3,4) hP wP
    by (auto simp add: wf_array_def map_array_def list_all_length)
  have bc: "broadcast_cells (nrows (arr P)) (ncols (arr P)) ?v = cells ?v"
    using broadcast_cells_same[OF wfv] by (simp add: map_array_def)
  have sb: "set_band 3 ?v (arr P) =
              Inr ((arr P)\<lparr>cells := map2 (map2 (\<lambda>p x. p[3 := x])) (cells (arr P)) (cells ?v)\<rparr>)"
    unfolding set_band_def using bc by (simp add: map_array_def)
  show ?thesis
    unfolding erase_selection_def Let_def P_def[symmetric]
    using z sb hP wP by (simp add: map_array_def)
qed

text \<open>
  Claim C5. For a well-formed image and a well-formed mask of the same width and height,
  \<open>erase_selection\<close> in the mode \<^verbatim>\<open>'transparent'\<close> returns an RGBA image of the same
  size in which, at every pixel, alpha is 0 where the mask is above 128 and the alpha of
  the image promoted to RGBA elsewhere, and the red, green and blue samples are those of
  the promoted image.
\<close>

theorem erase_transparent_frame:
  assumes "wf_image img" "wf_array msk" "nrows msk = nrows (arr img)" "ncols msk = ncols (arr img)"
  shows "\<exists>r. erase_selection img msk (Str ''transparent'') = Inr r \<and> mode r = RGBA \<and>
           nrows (arr r) = nrows (arr img) \<and> ncols (arr r) = ncols (arr img) \<and>
           (\<forall>y < nrows (arr img). \<forall>x < ncols (arr img).
              let p = cells (arr (if mode img \<noteq> RGBA then convert_RGBA img else img)) ! y ! x;
                  q = cells (arr r) ! y ! x
              in q ! 3 = (if cells msk ! y ! x > 128 then 0 else p ! 3) \<and>
                 q ! 0 = p ! 0 \<and> q ! 1 = p ! 1 \<and> q ! 2 = p ! 2 \<and> length q = 4)"
proof -
  define P where "P = (if mode img \<noteq> RGBA then convert_RGBA img else img)"
  have wfP: "wf_image P" and mP: "mode P = RGBA" and hP: "nrows (arr P) = nrows (arr img)"
    and wP: "ncols (arr P) = ncols (arr img)"
    using promoted_facts[OF assms(1)] by (simp_all add: P_def)
  have wfaP: "wf_array (arr P)"
    using wfP by (simp add: wf_image_def)
  let ?cells = "map2 (map2 (\<lambda>p x. p[3 := x])) (cells (arr P))
                  (map2 (map2 (\<lambda>m a. if m > 128 then 0 else a)) (cells msk)
                     (map (map (\<lambda>p. p ! 3)) (cells (arr P))))"
  let ?r = "\<lparr>mode = RGBA, arr = \<lparr>nrows = nrows (arr img), ncols = ncols (arr img), cells = ?cells\<rparr>\<rparr>"
  have eq: "erase_selection img msk (Str ''transparent'') = Inr ?r"
    using erase_transparent_eq[OF assms] by (simp add: P_def)
  have px: "?cells ! y ! x = (cells (arr P) ! y ! x)[3 := (if cells msk ! y ! x > 128 then 0
                                 else cells (arr P) ! y ! x ! 3)]"
    if "y < nrows (arr img)" "x < ncols (arr img)" for y x
  proof -
    have l1: "length (cells (arr P)) = nrows (arr img)" "length (cells msk) = nrows (arr img)"
      using wfaP assms(2,3) hP by (simp_all add: wf_array_def)
    have l2: "length (cells (arr P) ! y) = ncols (arr img)" "length (cells msk ! y) = ncols (arr img)"
      using wf_rows[OF wfaP, of y] wf_rows[OF assms(2), of y] that hP wP assms(3,4) by simp_all
    show ?thesis
      using that l1 l2 by simp
  qed
  have len: "length (cells (arr P) ! y ! x) = 4"
    if "y < nrows (arr img)" "x < ncols (arr img)" for y x
    using wf_pixel[OF wfP, of y x] that hP wP mP by simp
  have pix: "\<forall>y < nrows (arr img). \<forall>x < ncols (arr img).
              let p = cells (arr P) ! y ! x; q = cells (arr ?r) ! y ! x
              in q ! 3 = (if cells msk ! y ! x > 128 then 0 else p ! 3) \<and>
                 q ! 0 = p ! 0 \<and> q ! 1 = p ! 1 \<and> q ! 2 = p ! 2 \<and> length q = 4"
    using px len by (simp add: Let_def)
  have all: "erase_selection img msk (Str ''transparent'') = Inr ?r \<and> mode ?r = RGBA \<and>
           nrows (arr ?r) = nrows (arr img) \<and> ncols (arr ?r) = ncols (arr img) \<and>
           (\<forall>y < nrows (arr img). \<forall>x < ncols (arr img).
              let p = cells (arr P) ! y ! x; q = cells (arr ?r) ! y ! x
              in q ! 3 = (if cells msk ! y ! x > 128 then 0 else p ! 3) \<and>
                 q ! 0 = p ! 0 \<and> q ! 1 = p ! 1 \<and> q ! 2 = p ! 2 \<and> length q = 4)"
    using eq pix by simp
  show ?thesis
    unfolding P_def[symmetric] by (rule exI[of _ ?r]) (rule all)
qed

theorem erase_transparent_frame_witness:
  "wf_image \<lparr>mode = RGB, arr = \<lparr>nrows = 1, ncols = 2, cells = [[[10, 20, 30], [40, 50, 60]]]\<rparr>\<rparr> \<and>
   wf_array \<lparr>nrows = 1, ncols = 2, cells = [[200, 5 :: u8]]\<rparr> \<and>
   (\<exists>r. erase_selection
           \<lparr>mode = RGB, arr = \<lparr>nrows = 1, ncols = 2, cells = [[[10, 20, 30], [40, 50, 60]]]\<rparr>\<rparr>
           \<lparr>nrows = 1, ncols = 2, cells = [[200, 5]]\<rparr> (Str ''transparent'') = Inr r \<and>
         cells (arr r) ! 0 ! 0 ! 3 = 0 \<and> cells (arr r) ! 0 ! 0 ! 0 = 10 \<and>
         cells (arr r) ! 0 ! 1 ! 3 = 255 \<and> cells (arr r) ! 0 ! 1 ! 2 = 60)"
proof -
  let ?img = "\<lparr>mode = RGB, arr = \<lparr>nrows = 1, ncols = 2, cells = [[[10, 20, 30], [40, 50, 60 :: u8]]]\<rparr>\<rparr>"
  let ?msk = "\<lparr>nrows = 1, ncols = 2, cells = [[200, 5 :: u8]]\<rparr>"
  have wi: "wf_image ?img"
    by (simp add: wf_image_def wf_array_def)
  have wm: "wf_array ?msk"
    by (simp add: wf_array_def)
  obtain r where r: "erase_selection ?img ?msk (Str ''transparent'') = Inr r"
    and px: "\<forall>y < nrows (arr ?img). \<forall>x < ncols (arr ?img).
              let p = cells (arr (if mode ?img \<noteq> RGBA then convert_RGBA ?img else ?img)) ! y ! x;
                  q = cells (arr r) ! y ! x
              in q ! 3 = (if cells ?msk ! y ! x > 128 then 0 else p ! 3) \<and>
                 q ! 0 = p ! 0 \<and> q ! 1 = p ! 1 \<and> q ! 2 = p ! 2 \<and> length q = 4"
    using erase_transparent_frame[OF wi wm] by auto
  have "cells (arr r) ! 0 ! 0 ! 3 = 0 \<and> cells (arr r) ! 0 ! 0 ! 0 = 10"
    using px[rule_format, of 0 0] by (simp add: Let_def convert_RGBA_def map_array_def)
  moreover have "cells (arr r) ! 0 ! 1 ! 3 = 255 \<and> cells (arr r) ! 0 ! 1 ! 2 = 60"
    using px[rule_format, of 0 1] by (simp add: Let_def convert_RGBA_def map_array_def)
  ultimately show ?thesis
    using wi wm r by blast
qed

text \<open>
  Claim C4 as the claim states it fails for \<open>erase_selection\<close>: the function promotes
  the image to RGBA before it looks at the mode, so an RGB image comes back as an RGBA
  image with an opaque alpha band, not as the image that went in.
\<close>

theorem erase_unknown_mode_promotes:
  "erase_selection \<lparr>mode = RGB, arr = \<lparr>nrows = 1, ncols = 1, cells = [[[1, 2, 3]]]\<rparr>\<rparr>
     \<lparr>nrows = 1, ncols = 1, cells = [[0]]\<rparr> (Str ''blur'') =
   Inr \<lparr>mode = RGBA, arr = \<lparr>nrows = 1, ncols = 1, cells = [[[1, 2, 3, 255]]]\<rparr>\<rparr> \<and>
   erase_selection \<lparr>mode = RGB, arr = \<lparr>nrows = 1, ncols = 1, cells = [[[1, 2, 3]]]\<rparr>\<rparr>
     \<lparr>nrows = 1, ncols = 1, cells = [[0]]\<rparr> (Str ''blur'') \<noteq>
   Inr \<lparr>mode = RGB, arr = \<lparr>nrows = 1, ncols = 1, cells = [[[1, 2, 3]]]\<rparr>\<rparr>"
  by (simp add: erase_selection_def convert_RGBA_def map_array_def)

text \<open>
  Claim C4, amended. No unrecognised name raises: \<open>combine_selections\<close> with an
  operation that is none of its four returns \<open>mask1\<close>; \<open>auto_crop\<close> with a rule that is
  none of its three returns the image; \<open>erase_selection\<close> with a mode that is none of
  its three strings and no tuple of three or four samples returns the image promoted to
  RGBA, which is the image itself when it is RGBA already.
\<close>

theorem unknown_enum_fallback:
  "(operation \<notin> {''union'', ''intersection'', ''difference'', ''symmetric_difference''} \<longrightarrow>
      combine_selections mask1 mask2 operation = Inr mask1) \<and>
   (composition_rule \<notin> {''rule_of_thirds'', ''golden_ratio'', ''center_weighted''} \<longrightarrow>
      auto_crop rule_of_thirds_crop golden_ratio_crop center_weighted_crop img composition_rule =
        Inr img) \<and>
   (erase_mode \<notin> {Str ''transparent'', Str ''white'', Str ''black''} \<and>
    (\<forall>color. erase_mode = Tup color \<longrightarrow> length color \<noteq> 3 \<and> length color \<noteq> 4) \<longrightarrow>
      erase_selection img msk erase_mode =
        Inr (if mode img = RGBA then img else convert_RGBA img))"
  by (auto simp add: combine_selections_def auto_crop_def erase_selection_def Let_def
      convert_RGBA_def split: erase_mode.splits)

theorem unknown_enum_fallback_witness:
  "combine_selections \<lparr>nrows = 1, ncols = 1, cells = [[7]]\<rparr> \<lparr>nrows = 2, ncols = 3, cells = []\<rparr>
     ''xor'' = Inr \<lparr>nrows = 1, ncols = 1, cells = [[7]]\<rparr> \<and>
   auto_crop (\<lambda>i. Inl ValueError) (\<lambda>i. Inl ValueError) (\<lambda>i. Inl ValueError)
     \<lparr>mode = RGBA, arr = \<lparr>nrows = 1, ncols = 1, cells = [[[1, 2, 3, 4]]]\<rparr>\<rparr> ''diagonal'' =
     Inr \<lparr>mode = RGBA, arr = \<lparr>nrows = 1, ncols = 1, cells = [[[1, 2, 3, 4]]]\<rparr>\<rparr> \<and>
   erase_selection \<lparr>mode = RGBA, arr = \<lparr>nrows = 1, ncols = 1, cells = [[[1, 2, 3, 4]]]\<rparr>\<rparr>
     \<lparr>nrows = 1, ncols = 1, cells = [[255]]\<rparr> (Tup [9, 9]) =
     Inr \<lparr>mode = RGBA, arr = \<lparr>nrows = 1, ncols = 1, cells = [[[1, 2, 3, 4]]]\<rparr>\<rparr>"
  using unknown_enum_fallback [of "''xor''" "\<lparr>nrows = 1, ncols = 1, cells = [[7]]\<rparr>"
      "\<lparr>nrows = 2, ncols = 3, cells = []\<rparr>" "''diagonal''"
      "\<lambda>i. Inl ValueError" "\<lambda>i. Inl ValueError" "\<lambda>i. Inl ValueError"
      "\<lparr>mode = RGBA, arr = \<lparr>nrows = 1, ncols = 1, cells = [[[1, 2, 3, 4]]]\<rparr>\<rparr>"
      "Tup [9, 9]" "\<lparr>nrows = 1, ncols = 1, cells = [[255]]\<rparr>"]
  by simp

section \<open>Properties of the crop\<close>

text \<open>
  Claim C8. For a 200 by 200 image, the target size \<open>(100, 50)\<close> and the focus point
  \<open>(100, 100)\<close>, the crop box is \<open>(0, 50, 200, 150)\<close>: the full width, the rows 50 to
  149. The crop has 200 columns and 100 rows, and the image returned is the resized crop,
  100 wide and 50 high. Both aspect ratios (1 and 2) and the quotient 200 / 2 are exact
  in floating point, so the exact quotients of the model are the floats of the code.
\<close>

theorem smart_resize_crop_scenario:
  assumes "ncols (arr img) = 200" "nrows (arr img) = 200"
  shows "smart_crop_box (ncols (arr img), nrows (arr img)) (100, 50) (Some (100, 100)) =
           Inr (0, 50, 200, 150) \<and>
         (\<exists>cropped r. crop img (0, 50, 200, 150) = Inr cropped \<and>
            ncols (arr cropped) = 200 \<and> nrows (arr cropped) = 100 \<and>
            smart_resize_crop lanczos img (100, 50) (Some (100, 100)) = Inr r \<and>
            r = \<lparr>mode = mode img,
                 arr = \<lparr>nrows = 50, ncols = 100, cells = lanczos cropped (100, 50)\<rparr>\<rparr>)"
  using assms
  by (simp add: smart_crop_box_def py_int_def smart_resize_crop_def crop_def resize_def)

theorem smart_resize_crop_scenario_witness:
  "ncols (arr \<lparr>mode = RGB, arr = full 200 200 [0, 0, 0]\<rparr>) = 200 \<and>
   nrows (arr \<lparr>mode = RGB, arr = full 200 200 [0, 0, 0]\<rparr>) = 200 \<and>
   smart_crop_box (200, 200) (100, 50) (Some (100, 100)) = Inr (0, 50, 200, 150) \<and>
   smart_resize_crop (\<lambda>im sz. []) \<lparr>mode = RGB, arr = full 200 200 [0, 0, 0]\<rparr>
     (100, 50) (Some (100, 100)) =
   Inr \<lparr>mode = RGB, arr = \<lparr>nrows = 50, ncols = 100, cells = []\<rparr>\<rparr>"
proof -
  let ?img = "\<lparr>mode = RGB, arr = full 200 200 [0, 0, 0 :: u8]\<rparr>"
  have a: "ncols (arr ?img) = 200" and b: "nrows (arr ?img) = 200"
    by (simp_all add: full_def)
  show ?thesis
    using smart_resize_crop_scenario[OF a b, of "\<lambda>im sz. []"] a b by auto
qed

section \<open>Properties of the patch fill\<close>

lemma fold_err_const:
  "(\<And>x. x \<in> set xs \<Longrightarrow> f s x = Inr s) \<Longrightarrow> fold_err f xs s = Inr s"
  by (induction xs) simp_all

lemma fold_err_invariant:
  assumes "\<And>x s. x \<in> set xs \<Longrightarrow> I s \<Longrightarrow> \<exists>s'. f s x = Inr s' \<and> I s'" "I s"
  shows "\<exists>s'. fold_err f xs s = Inr s' \<and> I s'"
  using assms
proof (induction xs arbitrary: s)
  case Nil
  then show ?case by simp
next
  case (Cons x xs)
  from Cons.prems obtain s1 where s1: "f s x = Inr s1" "I s1"
    by (meson list.set_intros(1))
  have "\<exists>s'. fold_err f xs s1 = Inr s' \<and> I s'"
    using Cons.prems(1) s1(2) by (intro Cons.IH) auto
  then show ?case
    using s1(1) by simp
qed

lemma py_index_inside: "0 \<le> i \<Longrightarrow> i < int n \<Longrightarrow> py_index n i = Some (nat i)"
  by (simp add: py_index_def)

lemma getitem2_inside:
  "0 \<le> y \<Longrightarrow> y < int (nrows a) \<Longrightarrow> 0 \<le> x \<Longrightarrow> x < int (ncols a) \<Longrightarrow>
     getitem2 a y x = Inr (cells a ! nat y ! nat x)"
  by (simp add: getitem2_def py_index_inside)

lemma slice_bounds_inside:
  "0 \<le> a \<Longrightarrow> a \<le> int n \<Longrightarrow> 0 \<le> b \<Longrightarrow> b \<le> int n \<Longrightarrow>
     slice_bounds n a b = (nat a, nat (b - a))"
  by (simp add: slice_bounds_def Let_def min_def)

lemma shape_slice2:
  assumes "0 \<le> y1" "y1 \<le> int (nrows a)" "0 \<le> y2" "y2 \<le> int (nrows a)"
    and "0 \<le> x1" "x1 \<le> int (ncols a)" "0 \<le> x2" "x2 \<le> int (ncols a)"
  shows "shape (slice2 a y1 y2 x1 x2) = (nat (y2 - y1), nat (x2 - x1))"
  using assms by (simp add: shape_def slice2_def slice_bounds_inside)

lemma shape_slice2_same:
  "nrows a = nrows b \<Longrightarrow> ncols a = ncols b \<Longrightarrow>
     shape (slice2 a y1 y2 x1 x2) = shape (slice2 b y1 y2 x1 x2)"
  by (simp add: shape_def slice2_def split: prod.splits)

lemma candidate_positions:
  "p \<in> set (concat (map (\<lambda>sy. map (\<lambda>sx. (sy, sx)) [a..b]) [c..d])) \<longleftrightarrow>
     c \<le> fst p \<and> fst p \<le> d \<and> a \<le> snd p \<and> snd p \<le> b"
  by (cases p) (auto simp add: image_iff)

text \<open>The patch around a candidate centre is full-sized.\<close>

lemma shape_candidate:
  assumes "0 \<le> half" "half \<le> sy" "sy \<le> int (nrows a) - half - 1"
    and "half \<le> sx" "sx \<le> int (ncols a) - half - 1"
  shows "shape (slice2 a (sy - half) (sy + half + 1) (sx - half) (sx + half + 1)) =
           (nat (2 * half + 1), nat (2 * half + 1))"
proof -
  have "shape (slice2 a (sy - half) (sy + half + 1) (sx - half) (sx + half + 1)) =
          (nat ((sy + half + 1) - (sy - half)), nat ((sx + half + 1) - (sx - half)))"
    using assms by (intro shape_slice2) simp_all
  then show ?thesis
    by (simp add: algebra_simps)
qed

text \<open>The patch around a target pixel, clipped to the image.\<close>

lemma shape_target:
  assumes "0 \<le> half" "y < nrows a" "x < ncols a"
  shows "shape (slice2 a (max 0 (int y - half)) (min (int (nrows a)) (int y + half + 1))
                         (max 0 (int x - half)) (min (int (ncols a)) (int x + half + 1))) =
           (nat (min (int (nrows a)) (int y + half + 1) - max 0 (int y - half)),
            nat (min (int (ncols a)) (int x + half + 1) - max 0 (int x - half)))"
  using assms by (intro shape_slice2) simp_all

text \<open>
  A target pixel nearer than \<open>half\<close> to a border has a clipped patch, which no
  full-sized patch matches in shape.
\<close>

lemma border_shape_differs:
  assumes "0 \<le> half" "y < nrows a" "x < ncols a"
    and "int y < half \<or> int x < half \<or> int y \<ge> int (nrows a) - half \<or> int x \<ge> int (ncols a) - half"
    and "half \<le> sy" "sy \<le> int (nrows a) - half - 1" "half \<le> sx" "sx \<le> int (ncols a) - half - 1"
  shows "shape (slice2 a (sy - half) (sy + half + 1) (sx - half) (sx + half + 1)) \<noteq>
         shape (slice2 a (max 0 (int y - half)) (min (int (nrows a)) (int y + half + 1))
                         (max 0 (int x - half)) (min (int (ncols a)) (int x + half + 1)))"
proof -
  have "nat (min (int (nrows a)) (int y + half + 1) - max 0 (int y - half)) \<noteq> nat (2 * half + 1) \<or>
        nat (min (int (ncols a)) (int x + half + 1) - max 0 (int x - half)) \<noteq> nat (2 * half + 1)"
    using assms(1-4) by (auto simp add: min_def max_def)
  then show ?thesis
    using shape_candidate[OF assms(1) assms(5-8)] shape_target[OF assms(1-3)] by auto
qed

lemma patch_step_masked:
  assumes "0 \<le> sy" "sy < int (nrows msk)" "0 \<le> sx" "sx < int (ncols msk)"
    and "cells msk ! nat sy ! nat sx"
  shows "patch_step img msk target_patch target_mask half st (sy, sx) = Inr st"
  using assms by (simp add: patch_step_def getitem2_inside)

lemma patch_step_shape_differs:
  assumes "0 \<le> sy" "sy < int (nrows msk)" "0 \<le> sx" "sx < int (ncols msk)"
    and "shape (slice2 img (sy - half) (sy + half + 1) (sx - half) (sx + half + 1)) \<noteq>
         shape target_patch"
  shows "patch_step img msk target_patch target_mask half st (sy, sx) = Inr st"
  using assms by (simp add: patch_step_def getitem2_inside Let_def)

lemma patch_step_total:
  assumes "0 \<le> sy" "sy < int (nrows msk)" "0 \<le> sx" "sx < int (ncols msk)"
    and "shape target_mask = shape target_patch"
    and "shape (slice2 img (sy - half) (sy + half + 1) (sx - half) (sx + half + 1)) = full_shape"
    and "\<forall>c. snd st = Some c \<longrightarrow> shape c = full_shape"
  shows "\<exists>st'. patch_step img msk target_patch target_mask half st (sy, sx) = Inr st' \<and>
           (\<forall>c. snd st' = Some c \<longrightarrow> shape c = full_shape)"
proof -
  let ?cand = "slice2 img (sy - half) (sy + half + 1) (sx - half) (sx + half + 1)"
  have g: "getitem2 msk sy sx = Inr (cells msk ! nat sy ! nat sx)"
    using assms(1-4) by (rule getitem2_inside)
  have v: "shape (map_array Not target_mask) = shape target_patch"
    using assms(5) by (simp add: shape_def map_array_def)
  have "patch_step img msk target_patch target_mask half st (sy, sx) = Inr st \<or>
        patch_step img msk target_patch target_mask half st (sy, sx) =
          Inr (Some (sum_list (map2 sq_dist (select (map_array Not target_mask) ?cand)
                                 (select (map_array Not target_mask) target_patch))), Some ?cand)"
    unfolding patch_step_def using g v by (simp add: Let_def)
  then show ?thesis
  proof
    assume "patch_step img msk target_patch target_mask half st (sy, sx) = Inr st"
    then show ?thesis
      using assms(7) by (intro exI[of _ st]) simp
  next
    assume "patch_step img msk target_patch target_mask half st (sy, sx) =
          Inr (Some (sum_list (map2 sq_dist (select (map_array Not target_mask) ?cand)
                                 (select (map_array Not target_mask) target_patch))), Some ?cand)"
    then show ?thesis
      using assms(6) by simp
  qed
qed

lemma find_best_patch_fully_masked:
  assumes "nrows msk = nrows img" "ncols msk = ncols img" "0 \<le> patch_size"
    and "\<And>y x. y < nrows msk \<Longrightarrow> x < ncols msk \<Longrightarrow> cells msk ! y ! x"
  shows "find_best_patch img msk target_pos patch_size = Inr None"
proof -
  obtain x y where pos: "target_pos = (x, y)"
    by (cases target_pos)
  define half where "half = patch_size div 2"
  have half: "0 \<le> half"
    using assms(3) by (simp add: half_def)
  have step: "patch_step img msk tp tm half st p = Inr st"
    if "p \<in> set (concat (map (\<lambda>sy. map (\<lambda>sx. (sy, sx)) [half..int (ncols img) - half - 1])
                               [half..int (nrows img) - half - 1]))"
    for p tp tm st
  proof -
    obtain sy sx where p: "p = (sy, sx)"
      by (cases p)
    have r: "half \<le> sy" "sy \<le> int (nrows img) - half - 1" "half \<le> sx" "sx \<le> int (ncols img) - half - 1"
      using that unfolding candidate_positions p by simp_all
    have "cells msk ! nat sy ! nat sx"
      using r half assms(1,2) by (intro assms(4)) simp_all
    then show ?thesis
      unfolding p using r half assms(1,2) by (intro patch_step_masked) simp_all
  qed
  have "fold_err (patch_step img msk tp tm half)
          (concat (map (\<lambda>sy. map (\<lambda>sx. (sy, sx)) [half..int (ncols img) - half - 1])
                       [half..int (nrows img) - half - 1])) (None, None) = Inr (None, None)"
    for tp tm
    by (rule fold_err_const) (rule step)
  then show ?thesis
    unfolding find_best_patch_def pos Let_def half_def[symmetric]
    by simp
qed

lemma find_best_patch_border:
  assumes "nrows msk = nrows img" "ncols msk = ncols img" "0 \<le> patch_size"
    and "y < nrows img" "x < ncols img"
    and "int y < patch_size div 2 \<or> int x < patch_size div 2 \<or>
         int y \<ge> int (nrows img) - patch_size div 2 \<or> int x \<ge> int (ncols img) - patch_size div 2"
  shows "find_best_patch img msk (int x, int y) patch_size = Inr None"
proof -
  define half where "half = patch_size div 2"
  have half: "0 \<le> half"
    using assms(3) by (simp add: half_def)
  let ?tp = "slice2 img (max 0 (int y - half)) (min (int (nrows img)) (int y + half + 1))
                        (max 0 (int x - half)) (min (int (ncols img)) (int x + half + 1))"
  have step: "patch_step img msk ?tp tm half st p = Inr st"
    if "p \<in> set (concat (map (\<lambda>sy. map (\<lambda>sx. (sy, sx)) [half..int (ncols img) - half - 1])
                               [half..int (nrows img) - half - 1]))"
    for p tm st
  proof -
    obtain sy sx where p: "p = (sy, sx)"
      by (cases p)
    have r: "half \<le> sy" "sy \<le> int (nrows img) - half - 1" "half \<le> sx" "sx \<le> int (ncols img) - half - 1"
      using that unfolding candidate_positions p by simp_all
    have "shape (slice2 img (sy - half) (sy + half + 1) (sx - half) (sx + half + 1)) \<noteq> shape ?tp"
      using half assms(4,5) assms(6)[folded half_def] r by (rule border_shape_differs)
    then show ?thesis
      unfolding p using r half assms(1,2) by (intro patch_step_shape_differs) simp_all
  qed
  have "fold_err (patch_step img msk ?tp tm half)
          (concat (map (\<lambda>sy. map (\<lambda>sx. (sy, sx)) [half..int (ncols img) - half - 1])
                       [half..int (nrows img) - half - 1])) (None, None) = Inr (None, None)"
    for tm
    by (rule fold_err_const) (rule step)
  then show ?thesis
    unfolding find_best_patch_def Let_def half_def[symmetric]
    by simp
qed

lemma find_best_patch_total:
  assumes "nrows msk = nrows img" "ncols msk = ncols img" "0 \<le> patch_size"
  shows "\<exists>best. find_best_patch img msk target_pos patch_size = Inr best \<and>
           (\<forall>c. best = Some c \<longrightarrow>
              shape c = (nat (2 * (patch_size div 2) + 1), nat (2 * (patch_size div 2) + 1)))"
proof -
  obtain x y where pos: "target_pos = (x, y)"
    by (cases target_pos)
  define half where "half = patch_size div 2"
  have half: "0 \<le> half"
    using assms(3) by (simp add: half_def)
  let ?y1 = "max 0 (y - half)"
  let ?y2 = "min (int (nrows img)) (y + half + 1)"
  let ?x1 = "max 0 (x - half)"
  let ?x2 = "min (int (ncols img)) (x + half + 1)"
  let ?I = "\<lambda>st :: nat option \<times> u8 list array2 option.
              \<forall>c. snd st = Some c \<longrightarrow> shape c = (nat (2 * half + 1), nat (2 * half + 1))"
  have step: "\<exists>st'. patch_step img msk (slice2 img ?y1 ?y2 ?x1 ?x2) (slice2 msk ?y1 ?y2 ?x1 ?x2) half st p =
                       Inr st' \<and> ?I st'"
    if "p \<in> set (concat (map (\<lambda>sy. map (\<lambda>sx. (sy, sx)) [half..int (ncols img) - half - 1])
                               [half..int (nrows img) - half - 1]))" "?I st"
    for p st
  proof -
    obtain sy sx where p: "p = (sy, sx)"
      by (cases p)
    have r: "half \<le> sy" "sy \<le> int (nrows img) - half - 1" "half \<le> sx" "sx \<le> int (ncols img) - half - 1"
      using that(1) unfolding candidate_positions p by simp_all
    have same: "shape (slice2 msk ?y1 ?y2 ?x1 ?x2) = shape (slice2 img ?y1 ?y2 ?x1 ?x2)"
      using assms(1,2) by (rule shape_slice2_same)
    have cand: "shape (slice2 img (sy - half) (sy + half + 1) (sx - half) (sx + half + 1)) =
                  (nat (2 * half + 1), nat (2 * half + 1))"
      using half r by (rule shape_candidate)
    show ?thesis
      unfolding p using r half assms(1,2) same cand that(2)
      by (intro patch_step_total) simp_all
  qed
  have "\<exists>st'. fold_err (patch_step img msk (slice2 img ?y1 ?y2 ?x1 ?x2) (slice2 msk ?y1 ?y2 ?x1 ?x2) half)
                  (concat (map (\<lambda>sy. map (\<lambda>sx. (sy, sx)) [half..int (ncols img) - half - 1])
                               [half..int (nrows img) - half - 1])) (None, None) = Inr st' \<and> ?I st'"
    using step by (intro fold_err_invariant) simp_all
  then show ?thesis
    unfolding find_best_patch_def pos Let_def half_def[symmetric]
    by auto
qed

lemma where_true_inside:
  assumes "p \<in> set (where_true a)"
  obtains y x where "p = (int y, int x)" "y < nrows a" "x < ncols a"
  using assms by (auto simp add: where_true_def)

lemma setitem2_inside:
  "0 \<le> y \<Longrightarrow> y < int (nrows a) \<Longrightarrow> 0 \<le> x \<Longrightarrow> x < int (ncols a) \<Longrightarrow>
     setitem2 a y x v = Inr (a\<lparr>cells := (cells a)[nat y := (cells a ! nat y)[nat x := v]]\<rparr>)"
  by (simp add: setitem2_def py_index_inside)

lemma update_other_cell:
  "(j, i) \<noteq> (y, x) \<Longrightarrow> cs[j := (cs ! j)[i := v]] ! y ! x = cs ! y ! x"
  by (cases "j = y"; cases "j < length cs") (auto simp add: list_update_beyond)

lemma fill_step_unfilled:
  assumes "find_best_patch img_array mask_array (x, y) patch_size = Inr None"
  shows "fill_step img_array mask_array patch_size result (y, x) = Inr result"
  using assms by (simp add: fill_step_def)

text \<open>
  One turn of the fill loop, for a mask of the size of the image and a patch size that
  is not negative: it does not raise, it keeps the shape of \<open>result\<close>, and it writes no
  pixel but its own.
\<close>

lemma fill_step_total:
  assumes "nrows mask_array = nrows img_array" "ncols mask_array = ncols img_array"
    and "0 \<le> patch_size"
    and "nrows result = nrows img_array" "ncols result = ncols img_array"
    and "y < nrows img_array" "x < ncols img_array"
  shows "\<exists>r. fill_step img_array mask_array patch_size result (int y, int x) = Inr r \<and>
           nrows r = nrows result \<and> ncols r = ncols result \<and>
           (\<forall>y' x'. (y', x') \<noteq> (y, x) \<longrightarrow> cells r ! y' ! x' = cells result ! y' ! x')"
proof -
  define half where "half = patch_size div 2"
  have half: "0 \<le> half"
    using assms(3) by (simp add: half_def)
  obtain best where best: "find_best_patch img_array mask_array (int x, int y) patch_size = Inr best"
    and sh: "\<forall>c. best = Some c \<longrightarrow> shape c = (nat (2 * half + 1), nat (2 * half + 1))"
    using find_best_patch_total[OF assms(1-3), of "(int x, int y)"] unfolding half_def by blast
  show ?thesis
  proof (cases best)
    case None
    then show ?thesis
      using best by (simp add: fill_step_def)
  next
    case (Some c)
    have c: "nrows c = nat (2 * half + 1)" "ncols c = nat (2 * half + 1)"
      using sh Some by (simp_all add: shape_def)
    have g: "getitem2 c half half = Inr (cells c ! nat half ! nat half)"
      using half c by (intro getitem2_inside) simp_all
    have s: "setitem2 result (int y) (int x) v =
               Inr (result\<lparr>cells := (cells result)[y := (cells result ! y)[x := v]]\<rparr>)" for v
      using setitem2_inside[of "int y" result "int x" v] assms(4-7) by simp
    let ?r = "result\<lparr>cells := (cells result)
                 [y := (cells result ! y)[x := cells c ! nat half ! nat half]]\<rparr>"
    have "fill_step img_array mask_array patch_size result (int y, int x) = Inr ?r"
      using best Some g s unfolding fill_step_def half_def[symmetric]
      by (simp add: Let_def)
    moreover have "cells ?r ! y' ! x' = cells result ! y' ! x'" if "(y', x') \<noteq> (y, x)" for y' x'
      using update_other_cell[of y x y' x' "cells result"] that by auto
    ultimately show ?thesis
      by (intro exI[of _ ?r]) simp
  qed
qed

lemma convert_RGB_shape:
  "nrows (arr (convert_RGB img)) = nrows (arr img)" "ncols (arr (convert_RGB img)) = ncols (arr img)"
  by (simp_all add: convert_RGB_def map_array_def)

lemma convert_RGB_of_RGB: "mode img = RGB \<Longrightarrow> convert_RGB img = img"
proof -
  assume m: "mode img = RGB"
  have "map_array (to_rgb RGB) (arr img) = arr img"
    by (simp add: map_array_def map_idI)
  then show ?thesis
    using m by (simp add: convert_RGB_def)
qed

text \<open>
  Claim C6 as the claim states it fails in two ways. The fill works on the RGB
  conversion of the image and returns an RGB image, so a fully masked RGBA image comes
  back without its alpha band. And with a negative patch size the candidate loop runs
  past the last column and the read of the mask raises \<^verbatim>\<open>IndexError\<close>.
\<close>

theorem patch_match_fill_fully_masked_rgba:
  "patch_match_fill \<lparr>mode = RGBA, arr = \<lparr>nrows = 1, ncols = 1, cells = [[[1, 2, 3, 4]]]\<rparr>\<rparr>
     \<lparr>nrows = 1, ncols = 1, cells = [[255]]\<rparr> 9 =
   Inr \<lparr>mode = RGB, arr = \<lparr>nrows = 1, ncols = 1, cells = [[[1, 2, 3]]]\<rparr>\<rparr> \<and>
   patch_match_fill \<lparr>mode = RGB, arr = \<lparr>nrows = 1, ncols = 1, cells = [[[1, 2, 3]]]\<rparr>\<rparr>
     \<lparr>nrows = 1, ncols = 1, cells = [[255]]\<rparr> (- 1) = Inl IndexError"
  by code_simp

text \<open>
  Claim C6, amended. For a mask of the size of the image in which every sample is above
  128, and a patch size that is not negative, \<open>patch_match_fill\<close> finds no candidate
  patch for any pixel and returns the RGB conversion of the image with every pixel as it
  was; an RGB image is returned unchanged.
\<close>

theorem patch_match_fill_fully_masked:
  assumes "wf_array msk" "nrows msk = nrows (arr img)" "ncols msk = ncols (arr img)"
    and "list_all (list_all (\<lambda>v. v > 128)) (cells msk)" "0 \<le> patch_size"
  shows "patch_match_fill img msk patch_size = Inr (convert_RGB img) \<and>
         (mode img = RGB \<longrightarrow> patch_match_fill img msk patch_size = Inr img)"
proof -
  define A where "A = arr (convert_RGB img)"
  define M where "M = map_array (\<lambda>m. m > 128) msk"
  have dims: "nrows M = nrows A" "ncols M = ncols A"
    using assms(2,3) by (simp_all add: M_def A_def map_array_def convert_RGB_shape)
  have masked: "cells M ! y ! x" if "y < nrows M" "x < ncols M" for y x
  proof -
    have y: "y < length (cells msk)" and x: "x < length (cells msk ! y)"
      using that assms(1) by (simp_all add: M_def map_array_def wf_array_def list_all_length)
    have "cells msk ! y ! x > 128"
      using assms(4) y x by (simp add: list_all_length)
    then show ?thesis
      using y x by (simp add: M_def map_array_def)
  qed
  have step: "fill_step A M patch_size A p = Inr A" for p
  proof -
    obtain y x where p: "p = (y, x)"
      by (cases p)
    have "find_best_patch A M (x, y) patch_size = Inr None"
      using dims assms(5) masked by (rule find_best_patch_fully_masked)
    then show ?thesis
      unfolding p by (rule fill_step_unfilled)
  qed
  have "fold_err (fill_step A M patch_size) (where_true M) A = Inr A"
    by (rule fold_err_const) (rule step)
  then have "patch_match_fill img msk patch_size = Inr \<lparr>mode = RGB, arr = A\<rparr>"
    unfolding patch_match_fill_def Let_def A_def[symmetric] M_def[symmetric] by simp
  then have eq: "patch_match_fill img msk patch_size = Inr (convert_RGB img)"
    by (simp add: A_def convert_RGB_def)
  then show ?thesis
    by (simp add: convert_RGB_of_RGB)
qed

theorem patch_match_fill_fully_masked_witness:
  "wf_array \<lparr>nrows = 1, ncols = 2, cells = [[255, 129 :: u8]]\<rparr> \<and>
   list_all (list_all (\<lambda>v. v > 128)) (cells \<lparr>nrows = 1, ncols = 2, cells = [[255, 129 :: u8]]\<rparr>) \<and>
   patch_match_fill \<lparr>mode = RGB, arr = \<lparr>nrows = 1, ncols = 2, cells = [[[1, 2, 3], [4, 5, 6]]]\<rparr>\<rparr>
     \<lparr>nrows = 1, ncols = 2, cells = [[255, 129]]\<rparr> 0 =
   Inr \<lparr>mode = RGB, arr = \<lparr>nrows = 1, ncols = 2, cells = [[[1, 2, 3], [4, 5, 6]]]\<rparr>\<rparr>"
proof -
  let ?img = "\<lparr>mode = RGB, arr = \<lparr>nrows = 1, ncols = 2, cells = [[[1, 2, 3], [4, 5, 6 :: u8]]]\<rparr>\<rparr>"
  let ?msk = "\<lparr>nrows = 1, ncols = 2, cells = [[255, 129 :: u8]]\<rparr>"
  have w: "wf_array ?msk"
    by (simp add: wf_array_def)
  have a: "list_all (list_all (\<lambda>v. v > 128)) (cells ?msk)"
    by simp
  have t: "patch_match_fill ?img ?msk 0 = Inr (convert_RGB ?img) \<and>
           (mode ?img = RGB \<longrightarrow> patch_match_fill ?img ?msk 0 = Inr ?img)"
    by (rule patch_match_fill_fully_masked[OF w _ _ a]) simp_all
  have "patch_match_fill ?img ?msk 0 = Inr ?img"
    using t[THEN conjunct2] by simp
  then show ?thesis
    using w a by simp
qed

text \<open>
  Claim C10. For a mask of the size of the image and a patch size that is not negative,
  \<open>patch_match_fill\<close> returns an image, and in it every masked pixel \<open>(x, y)\<close> that is
  nearer than \<open>patch_size div 2\<close> to a border of the image has the value it has in the
  RGB conversion of the image: its patch is clipped, the patches of the candidates are
  full-sized, so the shapes never match and no best patch is found for it.
\<close>

theorem patch_match_fill_border_unchanged:
  assumes "nrows msk = nrows (arr img)" "ncols msk = ncols (arr img)" "0 \<le> patch_size"
    and "y < nrows (arr img)" "x < ncols (arr img)" "cells msk ! y ! x > 128"
    and "int y < patch_size div 2 \<or> int x < patch_size div 2 \<or>
         int y \<ge> int (nrows (arr img)) - patch_size div 2 \<or>
         int x \<ge> int (ncols (arr img)) - patch_size div 2"
  shows "\<exists>r. patch_match_fill img msk patch_size = Inr r \<and>
           cells (arr r) ! y ! x = cells (arr (convert_RGB img)) ! y ! x"
proof -
  define A where "A = arr (convert_RGB img)"
  define M where "M = map_array (\<lambda>m. m > 128) msk"
  have dimsA: "nrows A = nrows (arr img)" "ncols A = ncols (arr img)"
    by (simp_all add: A_def convert_RGB_shape)
  have dims: "nrows M = nrows A" "ncols M = ncols A"
    using assms(1,2) dimsA by (simp_all add: M_def map_array_def)
  let ?I = "\<lambda>r. nrows r = nrows A \<and> ncols r = ncols A \<and> cells r ! y ! x = cells A ! y ! x"
  have step: "\<exists>r'. fill_step A M patch_size r p = Inr r' \<and> ?I r'"
    if mem: "p \<in> set (where_true M)" and inv: "?I r" for p r
  proof -
    from mem obtain y' x' where p: "p = (int y', int x')" and in_msk: "y' < nrows M" "x' < ncols M"
      by (rule where_true_inside)
    have in_img: "y' < nrows A" "x' < ncols A"
      using in_msk dims by simp_all
    show ?thesis
    proof (cases "(y', x') = (y, x)")
      case True
      have "find_best_patch A M (int x, int y) patch_size = Inr None"
        using dims assms(3) assms(4,5,7)[folded dimsA] by (rule find_best_patch_border)
      then have "fill_step A M patch_size r (int y, int x) = Inr r"
        by (rule fill_step_unfilled)
      then show ?thesis
        using True p inv by simp
    next
      case False
      obtain r' where r': "fill_step A M patch_size r (int y', int x') = Inr r'"
        "nrows r' = nrows r" "ncols r' = ncols r"
        "\<forall>a b. (a, b) \<noteq> (y', x') \<longrightarrow> cells r' ! a ! b = cells r ! a ! b"
        using fill_step_total[OF dims assms(3) _ _ in_img, of r] inv by auto
      have "cells r' ! y ! x = cells r ! y ! x"
        using r'(4) False by auto
      then show ?thesis
        using r' p inv by simp
    qed
  qed
  have "\<exists>r. fold_err (fill_step A M patch_size) (where_true M) A = Inr r \<and> ?I r"
    using step by (intro fold_err_invariant) simp_all
  then obtain r where r: "fold_err (fill_step A M patch_size) (where_true M) A = Inr r"
    "cells r ! y ! x = cells A ! y ! x"
    by blast
  have "patch_match_fill img msk patch_size = Inr \<lparr>mode = RGB, arr = r\<rparr>"
    unfolding patch_match_fill_def Let_def A_def[symmetric] M_def[symmetric] using r(1) by simp
  then show ?thesis
    using r(2) unfolding A_def by (intro exI[of _ "\<lparr>mode = RGB, arr = r\<rparr>"]) simp
qed

theorem patch_match_fill_border_unchanged_witness:
  "\<exists>r. patch_match_fill
          \<lparr>mode = RGB, arr = \<lparr>nrows = 3, ncols = 3,
             cells = [[[9, 9, 9], [1, 1, 1], [2, 2, 2]],
                      [[3, 3, 3], [4, 4, 4], [5, 5, 5]],
                      [[6, 6, 6], [7, 7, 7], [8, 8, 8]]]\<rparr>\<rparr>
          \<lparr>nrows = 3, ncols = 3, cells = [[255, 0, 0], [0, 0, 0], [0, 0, 0]]\<rparr> 3 = Inr r \<and>
        cells (arr r) ! 0 ! 0 = [9, 9, 9]"
proof -
  let ?img = "\<lparr>mode = RGB, arr = \<lparr>nrows = 3, ncols = 3,
             cells = [[[9, 9, 9], [1, 1, 1], [2, 2, 2]],
                      [[3, 3, 3], [4, 4, 4], [5, 5, 5]],
                      [[6, 6, 6], [7, 7, 7], [8, 8, 8 :: u8]]]\<rparr>\<rparr>"
  let ?msk = "\<lparr>nrows = 3, ncols = 3, cells = [[255, 0, 0], [0, 0, 0], [0, 0, 0 :: u8]]\<rparr>"
  have "\<exists>r. patch_match_fill ?img ?msk 3 = Inr r \<and>
          cells (arr r) ! 0 ! 0 = cells (arr (convert_RGB ?img)) ! 0 ! 0"
    by (rule patch_match_fill_border_unchanged) simp_all
  then show ?thesis
    by (simp add: convert_RGB_def map_array_def)
qed

text \<open>
  Claim C3 as the claim states it fails: the fill of an RGBA image is an RGB image.
\<close>

theorem patch_match_fill_drops_alpha:
  "patch_match_fill \<lparr>mode = RGBA, arr = \<lparr>nrows = 1, ncols = 1, cells = [[[1, 2, 3, 4]]]\<rparr>\<rparr>
     \<lparr>nrows = 1, ncols = 1, cells = [[0]]\<rparr> 9 =
   Inr \<lparr>mode = RGB, arr = \<lparr>nrows = 1, ncols = 1, cells = [[[1, 2, 3]]]\<rparr>\<rparr> \<and>
   mode \<lparr>mode = RGB, arr = \<lparr>nrows = 1, ncols = 1, cells = [[[1, 2, 3 :: u8]]]\<rparr>\<rparr> \<noteq>
   mode \<lparr>mode = RGBA, arr = \<lparr>nrows = 1, ncols = 1, cells = [[[1, 2, 3, 4 :: u8]]]\<rparr>\<rparr>"
  by (simp add: patch_match_fill_def convert_RGB_def map_array_def where_true_def)

text \<open>
  Claim C3, amended. Whatever the mode of the input, and for every method, an image
  returned by \<open>fill_selection\<close> or by \<open>patch_match_fill\<close> has the mode RGB: both convert
  their input to RGB and build their result as an RGB image. The mode of the input is
  kept exactly when the input is RGB.
\<close>

theorem fill_result_mode_RGB:
  "(\<forall>r. fill_selection inpaint img msk method = Inr r \<longrightarrow> mode r = RGB) \<and>
   (\<forall>r. patch_match_fill img msk patch_size = Inr r \<longrightarrow> mode r = RGB)"
  by (auto simp add: fill_selection_def patch_match_fill_def Let_def split: sum.splits)

theorem fill_result_mode_RGB_witness:
  "fill_selection (\<lambda>a m radius flag. Inr a)
     \<lparr>mode = RGBA, arr = \<lparr>nrows = 1, ncols = 1, cells = [[[1, 2, 3, 4]]]\<rparr>\<rparr>
     \<lparr>nrows = 1, ncols = 1, cells = [[0]]\<rparr> ''telea'' =
   Inr \<lparr>mode = RGB, arr = \<lparr>nrows = 1, ncols = 1, cells = [[[1, 2, 3]]]\<rparr>\<rparr> \<and>
   mode \<lparr>mode = RGB, arr = \<lparr>nrows = 1, ncols = 1, cells = [[[1, 2, 3 :: u8]]]\<rparr>\<rparr> = RGB"
proof -
  have e: "fill_selection (\<lambda>a m radius flag. Inr a)
     \<lparr>mode = RGBA, arr = \<lparr>nrows = 1, ncols = 1, cells = [[[1, 2, 3, 4]]]\<rparr>\<rparr>
     \<lparr>nrows = 1, ncols = 1, cells = [[0]]\<rparr> ''telea'' =
   Inr \<lparr>mode = RGB, arr = \<lparr>nrows = 1, ncols = 1, cells = [[[1, 2, 3]]]\<rparr>\<rparr>"
    by (simp add: fill_selection_def convert_RGB_def map_array_def)
  have "mode \<lparr>mode = RGB, arr = \<lparr>nrows = 1, ncols = 1, cells = [[[1, 2, 3 :: u8]]]\<rparr>\<rparr> = RGB"
    using fill_result_mode_RGB[THEN conjunct1, rule_format, OF e] .
  then show ?thesis
    using e by simp
qed

end
